theory Spec2Isabelle
  imports Complex_Main "HOL-Library.Sublist" "HOL-Library.AList"
begin

section \<open>GraphQL introspection to SDL: the conversion core of main.py\<close>

text \<open>
  The converter works on the object that \<^verbatim>\<open>json.load\<close> returns, with no schema
  check in between, so its functions meet any JSON value at any place. The model keeps
  that: a document is a value of \<open>json\<close>, and every Python operation the source applies
  (\<^verbatim>\<open>d.get(k)\<close>, \<^verbatim>\<open>d[k]\<close>, iteration, truth value, \<^verbatim>\<open>str\<close> methods) is a function on
  \<open>json\<close> that returns the exception Python raises as \<open>Inl\<close>.

  Three things are outside the source and are fixed here as follows.
  \<^item> Strings are \<open>char list\<close>; case mapping is the ASCII one (GraphQL names are ASCII),
    any other character is left as it is.
  \<^item> \<^verbatim>\<open>str()\<close> of a value that is not a \<^verbatim>\<open>str\<close> (an f-string applied to a number, a
    list, ...) is the parameter \<open>str_of\<close>; a \<^verbatim>\<open>str\<close> is rendered as itself.
  \<^item> The interpreter's recursion limit is the parameter \<open>depth\<close> of \<open>convert_type\<close>:
    the number of nested activations still allowed. At 0 Python raises
    \<^verbatim>\<open>RecursionError\<close>.
\<close>

subsection \<open>Python values and exceptions\<close>

text \<open>
  What \<^verbatim>\<open>json.load\<close> builds: \<^verbatim>\<open>None\<close>, \<^verbatim>\<open>bool\<close>, \<^verbatim>\<open>int\<close>, \<^verbatim>\<open>float\<close> (by its value),
  \<^verbatim>\<open>str\<close>, \<^verbatim>\<open>list\<close> and \<^verbatim>\<open>dict\<close>. A dict is the list of its items in insertion order;
  its keys are strings and a lookup takes the first item with the key.
\<close>

datatype json =
    JNull
  | JBool bool
  | JInt int
  | JFloat real
  | JStr string
  | JArr "json list"
  | JObj "(string \<times> json) list"

text \<open>The exceptions the converter can raise; an error is the \<open>Inl\<close> of a result and
  ends the computation, as a raised exception does.\<close>

datatype error = KeyError | TypeError | AttributeError | RecursionError

definition bindE :: "error + 'a \<Rightarrow> ('a \<Rightarrow> error + 'b) \<Rightarrow> error + 'b" where
  "bindE m f = (case m of Inl e \<Rightarrow> Inl e | Inr x \<Rightarrow> f x)"

fun mapE :: "('a \<Rightarrow> error + 'b) \<Rightarrow> 'a list \<Rightarrow> error + 'b list" where
  "mapE f [] = Inr []"
| "mapE f (x # xs) = bindE (f x) (\<lambda>y. bindE (mapE f xs) (\<lambda>ys. Inr (y # ys)))"

text \<open>Truth value of a Python object (\<^verbatim>\<open>if x\<close>, \<^verbatim>\<open>not x\<close>, \<^verbatim>\<open>x or y\<close>).\<close>

fun truthy :: "json \<Rightarrow> bool" where
  "truthy JNull = False"
| "truthy (JBool b) = b"
| "truthy (JInt i) = (i \<noteq> 0)"
| "truthy (JFloat r) = (r \<noteq> 0)"
| "truthy (JStr s) = (s \<noteq> [])"
| "truthy (JArr xs) = (xs \<noteq> [])"
| "truthy (JObj kvs) = (kvs \<noteq> [])"

text \<open>\<^verbatim>\<open>d.get(key, dflt)\<close>: only a dict has the method.\<close>

fun dict_get :: "json \<Rightarrow> string \<Rightarrow> json \<Rightarrow> error + json" where
  "dict_get (JObj kvs) key dflt =
     Inr (case map_of kvs key of Some v \<Rightarrow> v | None \<Rightarrow> dflt)"
| "dict_get _ key dflt = Inl AttributeError"

text \<open>\<^verbatim>\<open>d[key]\<close> with a \<^verbatim>\<open>str\<close> key: \<^verbatim>\<open>KeyError\<close> on a dict without the key,
  \<^verbatim>\<open>TypeError\<close> on everything that is not a dict.\<close>

fun py_getitem :: "json \<Rightarrow> string \<Rightarrow> error + json" where
  "py_getitem (JObj kvs) key =
     (case map_of kvs key of Some v \<Rightarrow> Inr v | None \<Rightarrow> Inl KeyError)"
| "py_getitem _ key = Inl TypeError"

text \<open>\<^verbatim>\<open>for x in v\<close>: a list gives its elements, a \<^verbatim>\<open>str\<close> its characters, a dict its
  keys; nothing else is iterable.\<close>

fun py_iter :: "json \<Rightarrow> error + json list" where
  "py_iter (JArr xs) = Inr xs"
| "py_iter (JStr s) = Inr (map (\<lambda>c. JStr [c]) s)"
| "py_iter (JObj kvs) = Inr (map (\<lambda>kv. JStr (fst kv)) kvs)"
| "py_iter _ = Inl TypeError"

text \<open>Lists and dicts are the unhashable JSON values.\<close>

fun hashable :: "json \<Rightarrow> bool" where
  "hashable (JArr xs) = False"
| "hashable (JObj kvs) = False"
| "hashable _ = True"

text \<open>What an f-string puts in place of \<^verbatim>\<open>{v}\<close>.\<close>

definition format_value :: "(json \<Rightarrow> string) \<Rightarrow> json \<Rightarrow> string" where
  "format_value str_of v = (case v of JStr s \<Rightarrow> s | _ \<Rightarrow> str_of v)"

text \<open>\<^verbatim>\<open>sep.join(items)\<close> where every item has to be a \<^verbatim>\<open>str\<close>.\<close>

fun str_join :: "string \<Rightarrow> string list \<Rightarrow> string" where
  "str_join sep [] = []"
| "str_join sep [x] = x"
| "str_join sep (x # y # ys) = x @ sep @ str_join sep (y # ys)"

fun as_str :: "json \<Rightarrow> error + string" where
  "as_str (JStr s) = Inr s"
| "as_str _ = Inl TypeError"

subsection \<open>String methods\<close>

definition endswith :: "string \<Rightarrow> string \<Rightarrow> bool" where
  "endswith s suf = (length suf \<le> length s \<and> drop (length s - length suf) s = suf)"

text \<open>\<^verbatim>\<open>name.startswith(p)\<close> on an arbitrary value: only a \<^verbatim>\<open>str\<close> has the method.\<close>

fun startswith :: "json \<Rightarrow> string \<Rightarrow> error + bool" where
  "startswith (JStr s) p = Inr (take (length p) s = p)"
| "startswith _ p = Inl AttributeError"

definition lowers :: string where
  "lowers = ''abcdefghijklmnopqrstuvwxyz''"

definition uppers :: string where
  "uppers = ''ABCDEFGHIJKLMNOPQRSTUVWXYZ''"

definition to_upper :: "char \<Rightarrow> char" where
  "to_upper c = (case map_of (zip lowers uppers) c of Some u \<Rightarrow> u | None \<Rightarrow> c)"

definition to_lower :: "char \<Rightarrow> char" where
  "to_lower c = (case map_of (zip uppers lowers) c of Some l \<Rightarrow> l | None \<Rightarrow> c)"

text \<open>\<^verbatim>\<open>s.capitalize()\<close>: first character upper case, all the others lower case.\<close>

fun capitalize :: "string \<Rightarrow> string" where
  "capitalize [] = []"
| "capitalize (c # cs) = to_upper c # map to_lower cs"

subsection \<open>singularize (main.py 16--26)\<close>

fun singularize :: "json \<Rightarrow> error + string" where
  "singularize (JStr name) =
     Inr (if endswith name ''ies'' then take (length name - 3) name @ ''y''
          else if endswith name ''s'' then capitalize (take (length name - 1) name)
          else capitalize name)"
| "singularize _ = Inl AttributeError"

subsection \<open>convert_type (main.py 28--60)\<close>

text \<open>
  The type map is the dict \<^verbatim>\<open>{t.get('name'): t for t in types if t.get('name')}\<close>,
  kept as the list of its items in insertion order; \<open>None\<close> is Python's \<^verbatim>\<open>None\<close>, the
  default value of the parameter. Its keys can be any hashable JSON value, but the source only
  looks up \<^verbatim>\<open>str\<close> keys and only asks whether the dict is empty, and a \<^verbatim>\<open>str\<close> key is equal
  to no key of another type.
\<close>

type_synonym type_map = "(json \<times> json) list"

definition tm_truthy :: "type_map option \<Rightarrow> bool" where
  "tm_truthy type_map = (case type_map of None \<Rightarrow> False | Some m \<Rightarrow> m \<noteq> [])"

definition tm_get :: "type_map option \<Rightarrow> string \<Rightarrow> json \<Rightarrow> json" where
  "tm_get type_map key dflt =
     (case type_map of
        None \<Rightarrow> dflt
      | Some m \<Rightarrow> (case map_of m (JStr key) of Some v \<Rightarrow> v | None \<Rightarrow> dflt))"

text \<open>
  Lines 40--46 and 51--57 are the same text: the inner type made up when \<^verbatim>\<open>ofType\<close>
  is missing.
\<close>

definition missing_inner :: "json \<Rightarrow> type_map option \<Rightarrow> error + json" where
  "missing_inner fallback_field_name type_map =
     (if truthy fallback_field_name \<and> tm_truthy type_map then
        bindE (singularize fallback_field_name) (\<lambda>candidate.
        bindE (dict_get (tm_get type_map candidate (JObj [])) ''kind'' (JStr ''OBJECT'')) (\<lambda>kind.
        Inr (JObj [(''kind'', kind), (''name'', JStr candidate), (''ofType'', JNull)])))
      else Inr (JObj [(''kind'', JStr ''OBJECT''), (''name'', JStr ''UNKNOWN''),
                      (''ofType'', JNull)]))"

fun convert_type ::
  "(json \<Rightarrow> string) \<Rightarrow> nat \<Rightarrow> json \<Rightarrow> json \<Rightarrow> type_map option \<Rightarrow> error + json" where
  "convert_type str_of 0 graphql_type fallback_field_name type_map = Inl RecursionError"
| "convert_type str_of (Suc depth) graphql_type fallback_field_name type_map =
     (if graphql_type = JNull then Inr (JStr ''UNKNOWN'')
      else
        bindE (dict_get graphql_type ''kind'' JNull) (\<lambda>kind.
        if kind = JStr ''NON_NULL'' then
          bindE (dict_get graphql_type ''ofType'' JNull) (\<lambda>inner.
          bindE (if inner = JNull then missing_inner fallback_field_name type_map
                 else Inr inner) (\<lambda>inner.
          bindE (convert_type str_of depth inner fallback_field_name type_map) (\<lambda>r.
          Inr (JStr (format_value str_of r @ ''!'')))))
        else if kind = JStr ''LIST'' then
          bindE (dict_get graphql_type ''ofType'' JNull) (\<lambda>inner.
          bindE (if inner = JNull then missing_inner fallback_field_name type_map
                 else Inr inner) (\<lambda>inner.
          bindE (convert_type str_of depth inner fallback_field_name type_map) (\<lambda>r.
          Inr (JStr (''['' @ format_value str_of r @ '']'')))))
        else
          bindE (dict_get graphql_type ''name'' JNull) (\<lambda>name.
          Inr (if truthy name then name else JStr ''UNKNOWN''))))"

subsection \<open>Fields (main.py 62--72)\<close>

definition convert_field ::
  "(json \<Rightarrow> string) \<Rightarrow> nat \<Rightarrow> type_map \<Rightarrow> json \<Rightarrow> error + string" where
  "convert_field str_of depth type_map field =
     bindE (py_getitem field ''name'') (\<lambda>name.
     bindE (py_getitem field ''type'') (\<lambda>ty.
     bindE (convert_type str_of depth ty name (Some type_map)) (\<lambda>r.
     Inr (format_value str_of name @ '': '' @ format_value str_of r))))"

definition convert_input_field ::
  "(json \<Rightarrow> string) \<Rightarrow> nat \<Rightarrow> type_map \<Rightarrow> json \<Rightarrow> error + string" where
  "convert_input_field str_of depth type_map input_field =
     bindE (py_getitem input_field ''name'') (\<lambda>name.
     bindE (py_getitem input_field ''type'') (\<lambda>ty.
     bindE (convert_type str_of depth ty name (Some type_map)) (\<lambda>r.
     bindE (dict_get input_field ''defaultValue'' JNull) (\<lambda>dflt.
     let base = format_value str_of name @ '': '' @ format_value str_of r in
     Inr (if dflt \<noteq> JNull then base @ '' = '' @ format_value str_of dflt
          else base)))))"

subsection \<open>generate_graphql_schema (main.py 101--132)\<close>

text \<open>Line 111, the dict comprehension: a later type of the same name replaces the
  earlier one; a truthy name that is a list or a dict cannot be a key.\<close>

fun type_map_of :: "json list \<Rightarrow> type_map \<Rightarrow> error + type_map" where
  "type_map_of [] m = Inr m"
| "type_map_of (t # ts) m =
     bindE (dict_get t ''name'' JNull) (\<lambda>name.
     if truthy name then
       (if hashable name then type_map_of ts (AList.update name t m) else Inl TypeError)
     else type_map_of ts m)"

text \<open>Lines 114--131, the body of the loop for one type: \<open>None\<close> is \<^verbatim>\<open>continue\<close>,
  \<open>Some block\<close> is the string appended to \<^verbatim>\<open>schema_parts\<close>.\<close>

definition schema_part ::
  "(json \<Rightarrow> string) \<Rightarrow> nat \<Rightarrow> type_map \<Rightarrow> json \<Rightarrow> error + string option" where
  "schema_part str_of depth type_map t =
     bindE (dict_get t ''name'' JNull) (\<lambda>name.
     if \<not> truthy name then Inr None
     else
       bindE (startswith name ''__'') (\<lambda>internal.
       if internal then Inr None
       else
         bindE (dict_get t ''fields'' JNull) (\<lambda>fields.
         if fields \<noteq> JNull then
           (if \<not> truthy fields then Inr None
            else
              bindE (py_iter fields) (\<lambda>fs.
              bindE (mapE (convert_field str_of depth type_map)
                          (filter (\<lambda>f. f \<noteq> JNull) fs)) (\<lambda>lines.
              Inr (Some (''type '' @ format_value str_of name @ '' {\<newline>  ''
                         @ str_join ''\<newline>  '' lines @ ''\<newline>}'')))))
         else
           bindE (dict_get t ''inputFields'' JNull) (\<lambda>input_fields.
           if input_fields \<noteq> JNull then
             bindE (py_iter input_fields) (\<lambda>fs.
             bindE (mapE (convert_input_field str_of depth type_map) fs) (\<lambda>lines.
             Inr (Some (''input '' @ format_value str_of name @ '' {\<newline>  ''
                        @ str_join ''\<newline>  '' lines @ ''\<newline>}''))))
           else
             bindE (dict_get t ''enumValues'' JNull) (\<lambda>enum_values.
             if enum_values \<noteq> JNull then
               (if \<not> truthy enum_values then Inr None
                else
                  bindE (py_iter enum_values) (\<lambda>evs.
                  bindE (mapE (\<lambda>ev. py_getitem ev ''name'') evs) (\<lambda>names.
                  bindE (mapE as_str names) (\<lambda>enum_vals.
                  Inr (Some (''enum '' @ format_value str_of name @ '' {\<newline>  ''
                             @ str_join ''\<newline>  '' enum_vals @ ''\<newline>}''))))))
             else Inr (Some (''scalar '' @ format_value str_of name)))))))"

fun schema_parts ::
  "(json \<Rightarrow> string) \<Rightarrow> nat \<Rightarrow> type_map \<Rightarrow> json list \<Rightarrow> error + string list" where
  "schema_parts str_of depth type_map [] = Inr []"
| "schema_parts str_of depth type_map (t # ts) =
     bindE (schema_part str_of depth type_map t) (\<lambda>part.
     bindE (schema_parts str_of depth type_map ts) (\<lambda>parts.
     Inr (case part of None \<Rightarrow> parts | Some block \<Rightarrow> block # parts)))"

definition generate_graphql_schema ::
  "(json \<Rightarrow> string) \<Rightarrow> nat \<Rightarrow> json \<Rightarrow> error + string" where
  "generate_graphql_schema str_of depth introspection_data =
     bindE (py_getitem introspection_data ''data'') (\<lambda>data.
     bindE (py_getitem data ''__schema'') (\<lambda>schema.
     bindE (py_getitem schema ''types'') (\<lambda>types.
     bindE (py_iter types) (\<lambda>ts.
     bindE (type_map_of ts []) (\<lambda>type_map.
     bindE (schema_parts str_of depth type_map ts) (\<lambda>parts.
     Inr (str_join ''\<newline>\<newline>'' parts @ ''\<newline>'')))))))"

subsection \<open>main, from the parsed document to the output file (main.py 317--329)\<close>

text \<open>
  Every exception of \<^verbatim>\<open>generate_graphql_schema\<close> is caught and turned into
  \<^verbatim>\<open>sys.exit\<close> before the output file is opened; otherwise the SDL is written. Reading
  the input and failures of the file system are not part of the model.
\<close>

datatype outcome = Exit_Error error | Written string

definition main :: "(json \<Rightarrow> string) \<Rightarrow> nat \<Rightarrow> json \<Rightarrow> outcome" where
  "main str_of depth introspection_data =
     (case generate_graphql_schema str_of depth introspection_data of
        Inl e \<Rightarrow> Exit_Error e
      | Inr graphql_schema \<Rightarrow> Written graphql_schema)"

subsection \<open>Notions of the specification\<close>

text \<open>A document has the path \<^verbatim>\<open>data.__schema.types\<close> (spec 4.4, 6).\<close>

fun member :: "json \<Rightarrow> string \<Rightarrow> json option" where
  "member (JObj kvs) key = map_of kvs key"
| "member _ key = None"

definition has_types_path :: "json \<Rightarrow> bool" where
  "has_types_path doc =
     (case member doc ''data'' of
        None \<Rightarrow> False
      | Some data \<Rightarrow>
          (case member data ''__schema'' of
             None \<Rightarrow> False
           | Some schema \<Rightarrow> member schema ''types'' \<noteq> None))"

text \<open>
  The structural mapping of spec 4.1 and 8, written from the spec's words as a relation
  between a TypeRef and its SDL text: an absent TypeRef is \<^verbatim>\<open>UNKNOWN\<close>, a leaf is its
  name or \<^verbatim>\<open>UNKNOWN\<close> when it has none, \<^verbatim>\<open>NON_NULL(X)\<close> is \<^verbatim>\<open>resolve(X) + "!"\<close> and
  \<^verbatim>\<open>LIST(X)\<close> is \<^verbatim>\<open>"[" + resolve(X) + "]"\<close>. A wrapper needs its \<^verbatim>\<open>ofType\<close>: the chains
  the relation covers are the well-formed ones.
\<close>

inductive resolve :: "json \<Rightarrow> string \<Rightarrow> bool" where
  absent: "resolve JNull ''UNKNOWN''"
| named: "dict_get t ''kind'' JNull = Inr kind \<Longrightarrow> kind \<noteq> JStr ''NON_NULL'' \<Longrightarrow>
          kind \<noteq> JStr ''LIST'' \<Longrightarrow> dict_get t ''name'' JNull = Inr (JStr name) \<Longrightarrow>
          name \<noteq> [] \<Longrightarrow> resolve t name"
| unnamed: "dict_get t ''kind'' JNull = Inr kind \<Longrightarrow> kind \<noteq> JStr ''NON_NULL'' \<Longrightarrow>
          kind \<noteq> JStr ''LIST'' \<Longrightarrow> dict_get t ''name'' JNull = Inr JNull \<Longrightarrow>
          resolve t ''UNKNOWN''"
| non_null: "dict_get t ''kind'' JNull = Inr (JStr ''NON_NULL'') \<Longrightarrow>
          dict_get t ''ofType'' JNull = Inr x \<Longrightarrow> x \<noteq> JNull \<Longrightarrow> resolve x s \<Longrightarrow>
          resolve t (s @ ''!'')"
| list_of: "dict_get t ''kind'' JNull = Inr (JStr ''LIST'') \<Longrightarrow>
          dict_get t ''ofType'' JNull = Inr x \<Longrightarrow> x \<noteq> JNull \<Longrightarrow> resolve x s \<Longrightarrow>
          resolve t (''['' @ s @ '']'')"

code_pred resolve .

text \<open>The text a wrapper of the given kind puts around the text of its inner type.\<close>

definition wrapped :: "string \<Rightarrow> string \<Rightarrow> string" where
  "wrapped kind s = (if kind = ''NON_NULL'' then s @ ''!'' else ''['' @ s @ '']'')"

text \<open>The inner type made up for a missing \<^verbatim>\<open>ofType\<close> is itself a wrapper: the type map
  gives the singularized field name a type of kind \<^verbatim>\<open>NON_NULL\<close> or \<^verbatim>\<open>LIST\<close>.\<close>

definition guess_is_wrapper :: "json \<Rightarrow> type_map option \<Rightarrow> bool" where
  "guess_is_wrapper fb tm =
     (case missing_inner fb tm of
        Inl e \<Rightarrow> False
      | Inr inner \<Rightarrow> dict_get inner ''kind'' JNull = Inr (JStr ''NON_NULL'')
                    \<or> dict_get inner ''kind'' JNull = Inr (JStr ''LIST''))"

text \<open>Somewhere along the chain of \<open>t\<close> a \<^verbatim>\<open>NON_NULL\<close> or \<^verbatim>\<open>LIST\<close> wrapper has no
  \<^verbatim>\<open>ofType\<close>: the chains on which \<^verbatim>\<open>convert_type\<close> makes up an inner type.\<close>

inductive lacks :: "json \<Rightarrow> bool" where
  here: "dict_get t ''kind'' JNull = Inr (JStr ''NON_NULL'')
           \<or> dict_get t ''kind'' JNull = Inr (JStr ''LIST'') \<Longrightarrow>
         dict_get t ''ofType'' JNull = Inr JNull \<Longrightarrow> lacks t"
| inner: "dict_get t ''kind'' JNull = Inr (JStr ''NON_NULL'')
           \<or> dict_get t ''kind'' JNull = Inr (JStr ''LIST'') \<Longrightarrow>
         dict_get t ''ofType'' JNull = Inr x \<Longrightarrow> x \<noteq> JNull \<Longrightarrow> lacks x \<Longrightarrow> lacks t"

code_pred lacks .

text \<open>The types array that line 110 reads and lines 111 and 113 iterate.\<close>

definition input_types :: "json \<Rightarrow> error + json list" where
  "input_types introspection_data =
     bindE (py_getitem introspection_data ''data'') (\<lambda>data.
     bindE (py_getitem data ''__schema'') (\<lambda>schema.
     bindE (py_getitem schema ''types'') py_iter))"

text \<open>A block is a declaration of the type \<open>t\<close>: a keyword of the four declaration
  forms, then the name of \<open>t\<close>, which is not an internal one.\<close>

definition declares :: "json \<Rightarrow> string \<Rightarrow> bool" where
  "declares t block =
     (case dict_get t ''name'' JNull of
        Inr (JStr name) \<Rightarrow>
          name \<noteq> [] \<and> \<not> prefix ''__'' name
          \<and> (prefix (''type '' @ name) block \<or> prefix (''input '' @ name) block
             \<or> prefix (''enum '' @ name) block \<or> prefix (''scalar '' @ name) block)
      | _ \<Rightarrow> False)"

text \<open>
  Two runs agree when the second gives the outcome of the first, unless the first ran
  into the recursion limit; a computation is stable when a run with a larger recursion
  budget agrees with every run with a smaller one.
\<close>

definition agree :: "error + 'a \<Rightarrow> error + 'a \<Rightarrow> bool" where
  "agree a b = (a \<noteq> Inl RecursionError \<longrightarrow> b = a)"

definition stable :: "(nat \<Rightarrow> error + 'a) \<Rightarrow> bool" where
  "stable f = (\<forall>n m. n \<le> m \<longrightarrow> f n \<noteq> Inl RecursionError \<longrightarrow> f m = f n)"

subsection \<open>Example inputs\<close>

text \<open>\<^verbatim>\<open>[ID!]!\<close> as introspection gives it.\<close>

definition id_ref :: json where
  "id_ref = JObj [(''kind'', JStr ''NON_NULL''), (''name'', JNull), (''ofType'',
      JObj [(''kind'', JStr ''LIST''), (''name'', JNull), (''ofType'',
        JObj [(''kind'', JStr ''NON_NULL''), (''name'', JNull), (''ofType'',
          JObj [(''kind'', JStr ''SCALAR''), (''name'', JStr ''ID''), (''ofType'', JNull)])])])]"

text \<open>Wrappers whose \<^verbatim>\<open>ofType\<close> is null.\<close>

definition list_ref :: json where
  "list_ref = JObj [(''kind'', JStr ''LIST''), (''name'', JNull), (''ofType'', JNull)]"

definition bare_non_null :: json where
  "bare_non_null = JObj [(''kind'', JStr ''NON_NULL''), (''name'', JNull), (''ofType'', JNull)]"

text \<open>A list of a scalar whose name is empty: a chain with every \<^verbatim>\<open>ofType\<close> in place.\<close>

definition list_of_unnamed :: json where
  "list_of_unnamed = JObj [(''kind'', JStr ''LIST''), (''name'', JNull), (''ofType'',
      JObj [(''kind'', JStr ''SCALAR''), (''name'', JStr []), (''ofType'', JNull)])]"

text \<open>A type map with one object type \<^verbatim>\<open>User\<close>, and one with a type \<^verbatim>\<open>Post\<close> whose kind
  is \<^verbatim>\<open>LIST\<close>.\<close>

definition user_map :: type_map where
  "user_map = [(JStr ''User'', JObj [(''name'', JStr ''User''), (''kind'', JStr ''OBJECT'')])]"

definition wrapper_map :: type_map where
  "wrapper_map = [(JStr ''Post'', JObj [(''name'', JStr ''Post''), (''kind'', JStr ''LIST'')])]"

text \<open>A document whose type \<^verbatim>\<open>Tag\<close> has the kind \<^verbatim>\<open>NON_NULL\<close> and whose field \<^verbatim>\<open>tags\<close>
  is a \<^verbatim>\<open>LIST\<close> without \<^verbatim>\<open>ofType\<close>.\<close>

definition tags_doc :: json where
  "tags_doc = JObj [(''data'', JObj [(''__schema'', JObj [(''types'', JArr [
     JObj [(''name'', JStr ''Tag''), (''kind'', JStr ''NON_NULL'')],
     JObj [(''name'', JStr ''Query''), (''fields'', JArr [
        JObj [(''name'', JStr ''tags''), (''type'',
           JObj [(''kind'', JStr ''LIST''), (''name'', JNull), (''ofType'', JNull)])]])]])])])]"

text \<open>A document with an object type, an internal type, an enum and a scalar.\<close>

definition small_doc :: json where
  "small_doc = JObj [(''data'', JObj [(''__schema'', JObj [(''types'', JArr [
     JObj [(''name'', JStr ''Post''), (''fields'', JArr [
        JObj [(''name'', JStr ''id''), (''type'', JObj [(''kind'', JStr ''NON_NULL''),
           (''ofType'', JObj [(''kind'', JStr ''SCALAR''), (''name'', JStr ''ID'')])])]])],
     JObj [(''name'', JStr ''__Type''), (''fields'', JArr [])],
     JObj [(''name'', JStr ''Color''), (''enumValues'', JArr [JObj [(''name'', JStr ''RED'')]])],
     JObj [(''name'', JStr ''Date'')]])])])]"

subsection \<open>Basic facts\<close>

lemma bindE_Inl [simp]: "bindE (Inl e) f = Inl e"
  by (simp add: bindE_def)

lemma bindE_Inr [simp]: "bindE (Inr x) f = f x"
  by (simp add: bindE_def)

lemma bindE_eq_Inr:
  "bindE m f = Inr y \<longleftrightarrow> (\<exists>x. m = Inr x \<and> f x = Inr y)"
  by (cases m) simp_all

lemmas str_defs = endswith_def to_upper_def to_lower_def lowers_def uppers_def

lemma bindE_eq_Inl:
  "bindE m f = Inl e \<longleftrightarrow> m = Inl e \<or> (\<exists>x. m = Inr x \<and> f x = Inl e)"
  by (cases m) simp_all

lemma dict_get_not_null: "dict_get t key dflt = Inr v \<Longrightarrow> t \<noteq> JNull"
  by auto

lemma dict_get_error: "dict_get t key dflt = Inl e \<Longrightarrow> e = AttributeError"
  by (cases t) simp_all

lemma singularize_error: "singularize v = Inl e \<Longrightarrow> e = AttributeError"
  by (cases v) simp_all

lemma map_of_size: "map_of kvs key = Some x \<Longrightarrow> size x < size (JObj kvs)"
proof (induction kvs)
  case Nil
  then show ?case by simp
next
  case (Cons kv kvs)
  then show ?case by (cases kv) (auto split: if_splits)
qed

text \<open>What \<^verbatim>\<open>get\<close> finds in a dict is a proper part of the dict.\<close>

lemma dict_get_size:
  assumes "dict_get t key JNull = Inr x" and "x \<noteq> JNull"
  shows "size x < size t"
proof (cases t)
  case (JObj kvs)
  with assms have "map_of kvs key = Some x" by (cases "map_of kvs key") auto
  with JObj show ?thesis by (simp only: map_of_size)
qed (use assms in simp_all)

lemma py_getitem_error:
  "member v key = None \<Longrightarrow> py_getitem v key = Inl KeyError \<or> py_getitem v key = Inl TypeError"
  by (cases v) simp_all

lemma py_getitem_member:
  "member v key = Some x \<Longrightarrow> py_getitem v key = Inr x"
  by (cases v) simp_all

lemma take_prefix: "take (length p) s = p \<longleftrightarrow> prefix p s"
  by (auto simp add: prefix_def) (metis append_take_drop_id)

lemma startswith_Inr:
  "startswith name p = Inr b \<Longrightarrow> \<exists>s. name = JStr s \<and> b = prefix p s"
  by (cases name) (auto simp add: take_prefix)

subsection \<open>The name heuristic\<close>

lemma singularize_posts: "singularize (JStr ''posts'') = Inr ''Post''"
  by (simp add: str_defs)

lemma singularize_data: "singularize (JStr ''data'') = Inr ''Data''"
  by (simp add: str_defs)

lemma to_upper_letter:
  "c \<in> set lowers \<union> set uppers \<Longrightarrow> to_upper c \<in> set uppers"
  by (auto simp add: to_upper_def lowers_def uppers_def)

lemma capitalize_upper:
  "s \<noteq> [] \<Longrightarrow> hd s \<in> set lowers \<union> set uppers \<Longrightarrow> hd (capitalize s) \<in> set uppers"
  by (cases s) (simp_all add: to_upper_letter del: Un_iff)

text \<open>
  The two branches that call \<^verbatim>\<open>capitalize\<close> do give an upper-case initial to every name
  that begins with a letter, whenever anything is left of the name at all.
\<close>

lemma singularize_capitalized:
  assumes "\<not> endswith name ''ies''"
    and "hd name \<in> set lowers \<union> set uppers"
    and "singularize (JStr name) = Inr r" and "r \<noteq> []"
  shows "hd r \<in> set uppers"
proof (cases "endswith name ''s''")
  case True
  with assms have r: "r = capitalize (take (length name - 1) name)" by simp
  with assms(4) have ne: "take (length name - 1) name \<noteq> []" by auto
  then have "hd (take (length name - 1) name) = hd name"
    by (cases name) (auto simp: take_Cons')
  with capitalize_upper [OF ne] assms(2) r show ?thesis by simp
next
  case False
  with assms have r: "r = capitalize name" by simp
  with assms(4) have "name \<noteq> []" by auto
  from capitalize_upper [OF this assms(2)] r show ?thesis by simp
qed

text \<open>
  C2. The claim: singularize always returns a string that starts with an upper-case letter,
  with \<^verbatim>\<open>singularize("posts") == "Post"\<close>, \<^verbatim>\<open>singularize("categories") == "Category"\<close> and
  \<^verbatim>\<open>singularize("data") == "Data"\<close>. The first and the third value are as claimed
  (\<open>singularize_posts\<close>, \<open>singularize_data\<close>). The branch for names in \<^verbatim>\<open>ies\<close> returns
  \<^verbatim>\<open>name[:-3] + "y"\<close> without \<^verbatim>\<open>capitalize\<close>, so the second value is the lower-case
  \<^verbatim>\<open>category\<close>, where the docstring of the function also says \<^verbatim>\<open>Category\<close>.
\<close>

theorem singularize_categories: "singularize (JStr ''categories'') = Inr ''category''"
  by (simp add: str_defs)

subsection \<open>The fallback for a missing inner type\<close>

text \<open>
  C5. A \<^verbatim>\<open>NON_NULL\<close> TypeRef whose \<^verbatim>\<open>ofType\<close> is null (or not there), resolved for the
  field name \<^verbatim>\<open>posts\<close> with a type map that holds a type \<^verbatim>\<open>Post\<close> of kind \<^verbatim>\<open>OBJECT\<close>,
  gives exactly \<^verbatim>\<open>Post!\<close>.
\<close>

theorem fallback_posts:
  assumes "dict_get graphql_type ''kind'' JNull = Inr (JStr ''NON_NULL'')"
    and "dict_get graphql_type ''ofType'' JNull = Inr JNull"
    and "map_of m (JStr ''Post'') = Some t"
    and "dict_get t ''kind'' (JStr ''OBJECT'') = Inr (JStr ''OBJECT'')"
  shows "convert_type str_of (Suc (Suc depth)) graphql_type (JStr ''posts'') (Some m)
         = Inr (JStr ''Post!'')"
proof -
  from assms(3) have "m \<noteq> []" by auto
  with assms(3,4) have
    "missing_inner (JStr ''posts'') (Some m)
     = Inr (JObj [(''kind'', JStr ''OBJECT''), (''name'', JStr ''Post''), (''ofType'', JNull)])"
    by (simp add: missing_inner_def tm_truthy_def tm_get_def str_defs)
  moreover from assms(1) have "graphql_type \<noteq> JNull" by auto
  ultimately show ?thesis using assms(1,2)
    by (simp add: format_value_def)
qed

theorem fallback_posts_witness:
  "convert_type (\<lambda>v. []) (Suc (Suc 0)) (JObj [(''kind'', JStr ''NON_NULL''), (''ofType'', JNull)])
     (JStr ''posts'')
     (Some [(JStr ''Post'', JObj [(''name'', JStr ''Post''), (''kind'', JStr ''OBJECT'')])])
   = Inr (JStr ''Post!'')"
  using fallback_posts [of "JObj [(''kind'', JStr ''NON_NULL''), (''ofType'', JNull)]"
      "[(JStr ''Post'', JObj [(''name'', JStr ''Post''), (''kind'', JStr ''OBJECT'')])]"
      "JObj [(''name'', JStr ''Post''), (''kind'', JStr ''OBJECT'')]" "\<lambda>v. []" 0]
  by simp

subsection \<open>Leaves\<close>

text \<open>
  C10. A leaf TypeRef (kind neither \<^verbatim>\<open>LIST\<close> nor \<^verbatim>\<open>NON_NULL\<close>) whose name is present but
  the empty string resolves to \<^verbatim>\<open>UNKNOWN\<close>, as a leaf without a name does (line 60,
  \<^verbatim>\<open>graphql_type.get('name') or "UNKNOWN"\<close>).
\<close>

theorem empty_name_is_unknown:
  assumes "dict_get graphql_type ''kind'' JNull = Inr kind"
    and "kind \<noteq> JStr ''NON_NULL''" and "kind \<noteq> JStr ''LIST''"
    and "dict_get graphql_type ''name'' JNull = Inr name"
    and "name = JStr [] \<or> name = JNull"
  shows "convert_type str_of (Suc depth) graphql_type fallback_field_name type_map
         = Inr (JStr ''UNKNOWN'')"
proof -
  from assms(1) have "graphql_type \<noteq> JNull" by auto
  with assms show ?thesis by auto
qed

theorem empty_name_is_unknown_witness:
  "convert_type (\<lambda>v. []) (Suc 0) (JObj [(''kind'', JStr ''SCALAR''), (''name'', JStr [])])
     (JStr ''id'') (Some [])
   = Inr (JStr ''UNKNOWN'')"
  using empty_name_is_unknown [of "JObj [(''kind'', JStr ''SCALAR''), (''name'', JStr [])]"
      "JStr ''SCALAR''" "JStr []" "\<lambda>v. []" 0 "JStr ''id''" "Some []"]
  by simp

subsection \<open>The skip rule\<close>

text \<open>
  An object type with an empty field list and an enum type with an empty value list
  are skipped (lines 118--119 and 126--127).
\<close>

lemma empty_fields_skipped:
  assumes "map_of kvs ''fields'' = Some fields" and "fields \<noteq> JNull" and "\<not> truthy fields"
  shows "schema_part str_of depth type_map (JObj kvs) \<noteq> Inr (Some block)"
  using assms by (auto simp add: schema_part_def bindE_def split: sum.splits)

lemma empty_enum_skipped:
  assumes "dict_get t ''fields'' JNull = Inr JNull"
    and "dict_get t ''inputFields'' JNull = Inr JNull"
    and "dict_get t ''enumValues'' JNull = Inr enum_values"
    and "enum_values \<noteq> JNull" and "\<not> truthy enum_values"
  shows "schema_part str_of depth type_map t \<noteq> Inr (Some block)"
  using assms by (auto simp add: schema_part_def bindE_def split: sum.splits)

text \<open>
  C1. The claim: an object or input type with an empty field list and an enum type with an
  empty value list produce no SDL block. The input branch (lines 122--124) has no such
  test: an input type with \<^verbatim>\<open>"inputFields": []\<close> is emitted with an empty body.
\<close>

theorem empty_input_type_is_emitted:
  "generate_graphql_schema str_of depth
     (JObj [(''data'', JObj [(''__schema'', JObj [(''types'',
        JArr [JObj [(''name'', JStr ''In''), (''inputFields'', JArr [])]])])])])
   = Inr ''input In {\<newline>  \<newline>}\<newline>''"
  by (simp add: generate_graphql_schema_def schema_part_def format_value_def)

subsection \<open>Well-formed chains\<close>

text \<open>
  C4. On every well-formed TypeRef chain (no \<^verbatim>\<open>ofType\<close> missing) \<^verbatim>\<open>convert_type\<close>
  computes the structural mapping \<open>resolve\<close> of the spec: \<^verbatim>\<open>NON_NULL(X)\<close> gives
  \<^verbatim>\<open>resolve(X) + "!"\<close>, \<^verbatim>\<open>LIST(X)\<close> gives \<^verbatim>\<open>"[" + resolve(X) + "]"\<close>, a named leaf gives its
  name, a leaf without a name and an absent TypeRef give \<^verbatim>\<open>UNKNOWN\<close>. The result
  depends neither on the fallback field name nor on the type map, and needs no more
  nested activations than the TypeRef has nodes.
\<close>

theorem convert_type_structural:
  assumes "resolve t s"
  shows "convert_type str_of (Suc (size t) + k) t fb tm = Inr (JStr s)"
  using assms
proof (induction arbitrary: k rule: resolve.induct)
  case absent
  show ?case by simp
next
  case (named t kind name)
  with dict_get_not_null [OF named(1)] show ?case by simp
next
  case (unnamed t kind)
  with dict_get_not_null [OF unnamed(1)] show ?case by simp
next
  case (non_null t x s)
  from dict_get_size [OF non_null(2,3)]
  obtain j where "size t + k = Suc (size x) + j"
    by (metis less_iff_Suc_add add.assoc add_Suc)
  with non_null.IH [of j]
  have "convert_type str_of (size t + k) x fb tm = Inr (JStr s)" by (simp only:)
  with non_null(1-3) dict_get_not_null [OF non_null(1)] show ?case
    by (simp add: format_value_def)
next
  case (list_of t x s)
  from dict_get_size [OF list_of(2,3)]
  obtain j where "size t + k = Suc (size x) + j"
    by (metis less_iff_Suc_add add.assoc add_Suc)
  with list_of.IH [of j]
  have "convert_type str_of (size t + k) x fb tm = Inr (JStr s)" by (simp only:)
  with list_of(1-3) dict_get_not_null [OF list_of(1)] show ?case
    by (simp add: format_value_def)
qed

lemma resolve_id_ref: "resolve id_ref ''[ID!]!''"
proof -
  have "resolve (JObj [(''kind'', JStr ''SCALAR''), (''name'', JStr ''ID''),
          (''ofType'', JNull)]) ''ID''"
    by (rule resolve.named [where kind = "JStr ''SCALAR''"]) simp_all
  then have "resolve (JObj [(''kind'', JStr ''NON_NULL''), (''name'', JNull), (''ofType'',
          JObj [(''kind'', JStr ''SCALAR''), (''name'', JStr ''ID''), (''ofType'', JNull)])])
        (''ID'' @ ''!'')"
    by (rule resolve.non_null [rotated 3]) simp_all
  then have "resolve (JObj [(''kind'', JStr ''LIST''), (''name'', JNull), (''ofType'',
        JObj [(''kind'', JStr ''NON_NULL''), (''name'', JNull), (''ofType'',
          JObj [(''kind'', JStr ''SCALAR''), (''name'', JStr ''ID''), (''ofType'', JNull)])])])
        (''['' @ (''ID'' @ ''!'') @ '']'')"
    by (rule resolve.list_of [rotated 3]) simp_all
  then have "resolve id_ref ((''['' @ (''ID'' @ ''!'') @ '']'') @ ''!'')"
    unfolding id_ref_def by (rule resolve.non_null [rotated 3]) simp_all
  then show ?thesis by simp
qed

theorem convert_type_structural_witness:
  "resolve id_ref ''[ID!]!'' \<and>
   convert_type (\<lambda>v. []) (Suc (size id_ref) + 0) id_ref (JStr ''ids'') (Some [])
     = Inr (JStr ''[ID!]!'')"
  using convert_type_structural [OF resolve_id_ref, of "\<lambda>v. []" 0 "JStr ''ids''" "Some []"]
    resolve_id_ref by simp

subsection \<open>A wrapper without its inner type\<close>

lemma missing_inner_ofType:
  "missing_inner fb tm = Inr inner \<Longrightarrow> dict_get inner ''ofType'' JNull = Inr JNull"
  by (auto simp add: missing_inner_def bindE_eq_Inr split: if_splits)

lemma missing_inner_error:
  assumes "missing_inner fb tm = Inl e"
  shows "e = AttributeError"
proof (cases "truthy fb \<and> tm_truthy tm")
  case True
  with assms have "bindE (singularize fb) (\<lambda>candidate.
        bindE (dict_get (tm_get tm candidate (JObj [])) ''kind'' (JStr ''OBJECT'')) (\<lambda>kind.
        Inr (JObj [(''kind'', kind), (''name'', JStr candidate), (''ofType'', JNull)]))) = Inl e"
    by (simp add: missing_inner_def)
  then show ?thesis
    by (auto simp add: bindE_eq_Inl dest: singularize_error dict_get_error)
next
  case False
  with assms show ?thesis by (simp add: missing_inner_def)
qed

text \<open>The made-up inner type is resolved as a leaf when its kind is not a wrapper's.\<close>

lemma convert_type_missing_ofType:
  assumes "dict_get t ''kind'' JNull = Inr (JStr kind)"
    and "kind = ''NON_NULL'' \<or> kind = ''LIST''"
    and "dict_get t ''ofType'' JNull = Inr JNull"
    and "missing_inner fb tm
         = Inr (JObj [(''kind'', k), (''name'', JStr name), (''ofType'', JNull)])"
    and "k \<noteq> JStr ''NON_NULL''" and "k \<noteq> JStr ''LIST''"
  shows "convert_type str_of (Suc (Suc depth)) t fb tm
         = Inr (JStr (wrapped kind (if name = [] then ''UNKNOWN'' else name)))"
proof -
  from assms(1) have "t \<noteq> JNull" by auto
  with assms show ?thesis by (auto simp add: wrapped_def format_value_def)
qed

text \<open>When its kind is a wrapper's, the made-up inner type has no \<^verbatim>\<open>ofType\<close> either and
  is made up again, at every depth.\<close>

lemma guess_loops:
  assumes "missing_inner fb tm = Inr inner"
    and "dict_get inner ''kind'' JNull = Inr (JStr ''NON_NULL'')
         \<or> dict_get inner ''kind'' JNull = Inr (JStr ''LIST'')"
  shows "convert_type str_of depth inner fb tm = Inl RecursionError"
proof (induction depth)
  case 0
  show ?case by simp
next
  case (Suc depth)
  from assms(2) have "inner \<noteq> JNull" by auto
  with assms Suc missing_inner_ofType [OF assms(1)] show ?case by auto
qed

lemma missing_ofType_loops:
  assumes "dict_get t ''kind'' JNull = Inr (JStr ''NON_NULL'')
           \<or> dict_get t ''kind'' JNull = Inr (JStr ''LIST'')"
    and "dict_get t ''ofType'' JNull = Inr JNull"
    and "guess_is_wrapper fb tm"
  shows "convert_type str_of depth t fb tm = Inl RecursionError"
proof (cases depth)
  case 0
  then show ?thesis by simp
next
  case (Suc n)
  from assms(3) obtain inner where i: "missing_inner fb tm = Inr inner"
    and k: "dict_get inner ''kind'' JNull = Inr (JStr ''NON_NULL'')
         \<or> dict_get inner ''kind'' JNull = Inr (JStr ''LIST'')"
    by (auto simp add: guess_is_wrapper_def split: sum.splits)
  from assms(1) have "t \<noteq> JNull" by auto
  with assms(1,2) i guess_loops [OF i k, of str_of n] Suc show ?thesis by auto
qed

lemma guess_is_wrapper_posts: "guess_is_wrapper (JStr ''posts'') (Some wrapper_map)"
  by (simp add: guess_is_wrapper_def missing_inner_def tm_truthy_def tm_get_def wrapper_map_def
      str_defs)

text \<open>
  C3, as the code has it. For a \<^verbatim>\<open>NON_NULL\<close> or \<^verbatim>\<open>LIST\<close> TypeRef whose \<^verbatim>\<open>ofType\<close> is
  missing:
  \<^item> when no guess is possible (the fallback field name or the type map is empty or
    absent), the inner type is made up with kind \<^verbatim>\<open>OBJECT\<close> and name \<^verbatim>\<open>UNKNOWN\<close>;
  \<^item> when the type map has no entry for the singularized field name, the inner type gets
    kind \<^verbatim>\<open>OBJECT\<close> and the singularized name itself, not \<^verbatim>\<open>UNKNOWN\<close>;
  \<^item> when the type map has an entry, the inner type gets the kind of the entry and the
    singularized name;
  and in each case \<^verbatim>\<open>convert_type\<close> returns the wrapped name (\<^verbatim>\<open>UNKNOWN\<close> for an empty
  one), provided the kind taken from the entry is not itself \<^verbatim>\<open>NON_NULL\<close> or \<^verbatim>\<open>LIST\<close>.
\<close>

theorem missing_ofType_recovered:
  assumes "dict_get t ''kind'' JNull = Inr (JStr kind)"
    and "kind = ''NON_NULL'' \<or> kind = ''LIST''"
    and "dict_get t ''ofType'' JNull = Inr JNull"
  shows "(\<not> (truthy fb \<and> tm_truthy tm) \<longrightarrow>
            missing_inner fb tm = Inr (JObj [(''kind'', JStr ''OBJECT''),
              (''name'', JStr ''UNKNOWN''), (''ofType'', JNull)])
          \<and> convert_type str_of (Suc (Suc depth)) t fb tm
              = Inr (JStr (wrapped kind ''UNKNOWN'')))
       \<and> (truthy fb \<and> tm = Some m \<and> m \<noteq> [] \<and> singularize fb = Inr candidate
            \<and> map_of m (JStr candidate) = None \<longrightarrow>
            missing_inner fb tm = Inr (JObj [(''kind'', JStr ''OBJECT''),
              (''name'', JStr candidate), (''ofType'', JNull)])
          \<and> convert_type str_of (Suc (Suc depth)) t fb tm
              = Inr (JStr (wrapped kind (if candidate = [] then ''UNKNOWN'' else candidate))))
       \<and> (truthy fb \<and> tm = Some m \<and> singularize fb = Inr candidate
            \<and> map_of m (JStr candidate) = Some entry
            \<and> dict_get entry ''kind'' (JStr ''OBJECT'') = Inr k
            \<and> k \<noteq> JStr ''NON_NULL'' \<and> k \<noteq> JStr ''LIST'' \<longrightarrow>
            missing_inner fb tm = Inr (JObj [(''kind'', k),
              (''name'', JStr candidate), (''ofType'', JNull)])
          \<and> convert_type str_of (Suc (Suc depth)) t fb tm
              = Inr (JStr (wrapped kind (if candidate = [] then ''UNKNOWN'' else candidate))))"
proof (intro conjI impI)
  assume "\<not> (truthy fb \<and> tm_truthy tm)"
  then have "(truthy fb \<and> tm_truthy tm) = False" by simp
  then show i: "missing_inner fb tm = Inr (JObj [(''kind'', JStr ''OBJECT''),
              (''name'', JStr ''UNKNOWN''), (''ofType'', JNull)])"
    by (simp only: missing_inner_def if_False)
  from convert_type_missing_ofType [OF assms i]
  show "convert_type str_of (Suc (Suc depth)) t fb tm = Inr (JStr (wrapped kind ''UNKNOWN''))"
    by simp
next
  assume a: "truthy fb \<and> tm = Some m \<and> m \<noteq> [] \<and> singularize fb = Inr candidate
            \<and> map_of m (JStr candidate) = None"
  then show i: "missing_inner fb tm = Inr (JObj [(''kind'', JStr ''OBJECT''),
              (''name'', JStr candidate), (''ofType'', JNull)])"
    by (simp add: missing_inner_def tm_truthy_def tm_get_def)
  from convert_type_missing_ofType [OF assms i]
  show "convert_type str_of (Suc (Suc depth)) t fb tm
        = Inr (JStr (wrapped kind (if candidate = [] then ''UNKNOWN'' else candidate)))"
    by simp
next
  assume a: "truthy fb \<and> tm = Some m \<and> singularize fb = Inr candidate
            \<and> map_of m (JStr candidate) = Some entry
            \<and> dict_get entry ''kind'' (JStr ''OBJECT'') = Inr k
            \<and> k \<noteq> JStr ''NON_NULL'' \<and> k \<noteq> JStr ''LIST''"
  then have "m \<noteq> []" by auto
  with a show i: "missing_inner fb tm = Inr (JObj [(''kind'', k),
              (''name'', JStr candidate), (''ofType'', JNull)])"
    by (simp add: missing_inner_def tm_truthy_def tm_get_def)
  from a convert_type_missing_ofType [OF assms i]
  show "convert_type str_of (Suc (Suc depth)) t fb tm
        = Inr (JStr (wrapped kind (if candidate = [] then ''UNKNOWN'' else candidate)))"
    by simp
qed

theorem missing_ofType_recovered_witness:
  "convert_type (\<lambda>v. []) (Suc (Suc 0)) list_ref JNull (Some user_map) = Inr (JStr ''[UNKNOWN]'')
   \<and> missing_inner (JStr ''posts'') (Some user_map)
       = Inr (JObj [(''kind'', JStr ''OBJECT''), (''name'', JStr ''Post''), (''ofType'', JNull)])
   \<and> convert_type (\<lambda>v. []) (Suc (Suc 0)) list_ref (JStr ''posts'') (Some user_map)
       = Inr (JStr ''[Post]'')
   \<and> convert_type (\<lambda>v. []) (Suc (Suc 0)) list_ref (JStr ''users'') (Some user_map)
       = Inr (JStr ''[User]'')"
proof -
  have kind: "dict_get list_ref ''kind'' JNull = Inr (JStr ''LIST'')"
    and wrapper: "''LIST'' = ''NON_NULL'' \<or> ''LIST'' = ''LIST''"
    and ofType: "dict_get list_ref ''ofType'' JNull = Inr JNull"
    by (simp_all add: list_ref_def)
  note recovered = missing_ofType_recovered [OF kind wrapper ofType,
      where str_of = "\<lambda>v. []" and depth = 0 and tm = "Some user_map" and m = user_map]
  have "convert_type (\<lambda>v. []) (Suc (Suc 0)) list_ref JNull (Some user_map)
        = Inr (JStr ''[UNKNOWN]'')"
    using recovered [where fb = JNull]
    by (simp add: wrapped_def del: convert_type.simps)
  moreover have "missing_inner (JStr ''posts'') (Some user_map)
       = Inr (JObj [(''kind'', JStr ''OBJECT''), (''name'', JStr ''Post''), (''ofType'', JNull)])
     \<and> convert_type (\<lambda>v. []) (Suc (Suc 0)) list_ref (JStr ''posts'') (Some user_map)
       = Inr (JStr ''[Post]'')"
    using recovered [where fb = "JStr ''posts''" and candidate = "''Post''"]
    by (simp add: wrapped_def user_map_def str_defs del: convert_type.simps)
  moreover have "convert_type (\<lambda>v. []) (Suc (Suc 0)) list_ref (JStr ''users'') (Some user_map)
       = Inr (JStr ''[User]'')"
    using recovered [where fb = "JStr ''users''" and candidate = "''User''"
        and entry = "JObj [(''name'', JStr ''User''), (''kind'', JStr ''OBJECT'')]"
        and k = "JStr ''OBJECT''"]
    by (simp add: wrapped_def user_map_def str_defs del: convert_type.simps)
  ultimately show ?thesis by (simp only:)
qed

text \<open>
  C3 as the spec states it fails twice. With the field name \<^verbatim>\<open>posts\<close> and a type map
  that has no \<^verbatim>\<open>Post\<close>, a \<^verbatim>\<open>NON_NULL\<close> without \<^verbatim>\<open>ofType\<close> resolves to \<^verbatim>\<open>Post!\<close>, not to
  \<^verbatim>\<open>UNKNOWN!\<close>. With a type map whose \<^verbatim>\<open>Post\<close> has kind \<^verbatim>\<open>LIST\<close>, the same TypeRef
  ends in \<^verbatim>\<open>RecursionError\<close> whatever the recursion limit.
\<close>

theorem missing_ofType_counterexample:
  "convert_type (\<lambda>v. []) (Suc (Suc 0)) bare_non_null (JStr ''posts'') (Some user_map)
     = Inr (JStr ''Post!'')
   \<and> (\<forall>depth. convert_type (\<lambda>v. []) depth bare_non_null (JStr ''posts'') (Some wrapper_map)
        = Inl RecursionError)"
proof
  show "convert_type (\<lambda>v. []) (Suc (Suc 0)) bare_non_null (JStr ''posts'') (Some user_map)
     = Inr (JStr ''Post!'')"
    by (simp add: bare_non_null_def user_map_def missing_inner_def tm_truthy_def tm_get_def
        str_defs format_value_def)
  show "\<forall>depth. convert_type (\<lambda>v. []) depth bare_non_null (JStr ''posts'') (Some wrapper_map)
        = Inl RecursionError"
    by (intro allI missing_ofType_loops guess_is_wrapper_posts) (simp_all add: bare_non_null_def)
qed

subsection \<open>Termination\<close>

lemma bindE_not_rec:
  "m \<noteq> Inl RecursionError \<Longrightarrow> (\<And>x. m = Inr x \<Longrightarrow> f x \<noteq> Inl RecursionError)
   \<Longrightarrow> bindE m f \<noteq> Inl RecursionError"
  by (cases m) auto

lemma leaf_returns:
  assumes "missing_inner fb tm = Inr inner" and "\<not> guess_is_wrapper fb tm"
  shows "\<exists>r. convert_type str_of (Suc n) inner fb' tm' = Inr r"
proof -
  from assms(1) obtain kvs where "inner = JObj kvs"
    by (auto simp add: missing_inner_def bindE_eq_Inr split: if_splits)
  with assms show ?thesis
    by (auto simp add: guess_is_wrapper_def)
qed

lemma convert_type_no_overflow:
  "size t + 2 \<le> depth \<Longrightarrow> (lacks t \<Longrightarrow> \<not> guess_is_wrapper fb tm) \<Longrightarrow>
   convert_type str_of depth t fb tm \<noteq> Inl RecursionError"
proof (induction depth arbitrary: t)
  case 0
  then show ?case by simp
next
  case (Suc depth)
  from Suc.prems(1) obtain n where n: "depth = Suc n" by (cases depth) auto
  have inner_ok: "convert_type str_of depth x fb tm \<noteq> Inl RecursionError"
    if w: "dict_get t ''kind'' JNull = Inr (JStr ''NON_NULL'')
           \<or> dict_get t ''kind'' JNull = Inr (JStr ''LIST'')"
      and x: "dict_get t ''ofType'' JNull = Inr inner"
       "(if inner = JNull then missing_inner fb tm else Inr inner) = Inr x"
    for inner x
  proof (cases "inner = JNull")
    case True
    with x have m: "missing_inner fb tm = Inr x" by simp
    from True x(1) have "lacks t" by (intro lacks.here [OF w]) simp
    then have "\<not> guess_is_wrapper fb tm" by (rule Suc.prems(2))
    from leaf_returns [OF m this, of str_of n fb tm] n show ?thesis by auto
  next
    case False
    with x have eq: "x = inner" by simp
    with dict_get_size [OF x(1) False] Suc.prems(1) have "size x + 2 \<le> depth" by simp
    moreover have "\<not> guess_is_wrapper fb tm" if "lacks x"
      using lacks.inner [OF w x(1) False] that eq Suc.prems(2) by simp
    ultimately show ?thesis by (rule Suc.IH)
  qed
  have guess_ok:
    "(if inner = JNull then missing_inner fb tm else Inr inner) \<noteq> Inl RecursionError"
    for inner using missing_inner_error [of fb tm RecursionError] by auto
  show ?case
  proof (cases "t = JNull")
    case True
    then show ?thesis by simp
  next
    case False
    show ?thesis
    proof (cases "dict_get t ''kind'' JNull")
      case (Inl e)
      then have "e = AttributeError" by (cases t) auto
      with Inl False show ?thesis by simp
    next
      case (Inr kind)
      then obtain kvs where t: "t = JObj kvs" by (cases t) auto
      consider "kind = JStr ''NON_NULL''" | "kind = JStr ''LIST''"
        | "kind \<noteq> JStr ''NON_NULL''" "kind \<noteq> JStr ''LIST''" by blast
      then show ?thesis
      proof cases
        case 1
        with Inr have w: "dict_get t ''kind'' JNull = Inr (JStr ''NON_NULL'')
           \<or> dict_get t ''kind'' JNull = Inr (JStr ''LIST'')" by simp
        from 1 Inr False have "convert_type str_of (Suc depth) t fb tm =
          bindE (dict_get t ''ofType'' JNull) (\<lambda>inner.
          bindE (if inner = JNull then missing_inner fb tm else Inr inner) (\<lambda>inner.
          bindE (convert_type str_of depth inner fb tm) (\<lambda>r.
          Inr (JStr (format_value str_of r @ ''!'')))))" by simp
        moreover have "\<dots> \<noteq> Inl RecursionError"
          by (intro bindE_not_rec guess_ok inner_ok [OF w]) (simp_all add: t)
        ultimately show ?thesis by simp
      next
        case 2
        with Inr have w: "dict_get t ''kind'' JNull = Inr (JStr ''NON_NULL'')
           \<or> dict_get t ''kind'' JNull = Inr (JStr ''LIST'')" by simp
        from 2 Inr False have "convert_type str_of (Suc depth) t fb tm =
          bindE (dict_get t ''ofType'' JNull) (\<lambda>inner.
          bindE (if inner = JNull then missing_inner fb tm else Inr inner) (\<lambda>inner.
          bindE (convert_type str_of depth inner fb tm) (\<lambda>r.
          Inr (JStr (''['' @ format_value str_of r @ '']'')))))" by simp
        moreover have "\<dots> \<noteq> Inl RecursionError"
          by (intro bindE_not_rec guess_ok inner_ok [OF w]) (simp_all add: t)
        ultimately show ?thesis by simp
      next
        case 3
        with Inr False t show ?thesis by simp
      qed
    qed
  qed
qed

text \<open>
  \<^verbatim>\<open>convert_type\<close> has no depth limit of its own, and on a TypeRef \<open>t\<close> of any nesting
  depth it ends within \<open>size t + 2\<close> nested activations: with that many allowed it
  never runs into the recursion limit. This holds for every chain with all its
  \<^verbatim>\<open>ofType\<close> in place, whatever the type map, and for a chain that lacks one as long as
  the inner type made up for it is not itself a wrapper.
\<close>

lemma convert_type_terminates:
  assumes "lacks t \<longrightarrow> \<not> guess_is_wrapper fb tm"
  shows "convert_type str_of (size t + 2 + k) t fb tm \<noteq> Inl RecursionError"
  using assms by (intro convert_type_no_overflow) simp_all

lemma lacks_iff:
  "lacks t \<longleftrightarrow>
     (dict_get t ''kind'' JNull = Inr (JStr ''NON_NULL'')
       \<or> dict_get t ''kind'' JNull = Inr (JStr ''LIST''))
     \<and> (case dict_get t ''ofType'' JNull of
          Inl e \<Rightarrow> False
        | Inr x \<Rightarrow> x = JNull \<or> lacks x)"
  by (subst lacks.simps) (auto split: sum.splits)

lemma not_lacks_id_ref: "\<not> lacks id_ref"
  unfolding id_ref_def
  by (subst lacks_iff, simp)+

lemma not_lacks_list_of_unnamed: "\<not> lacks list_of_unnamed"
  unfolding list_of_unnamed_def
  by (subst lacks_iff, simp)+

text \<open>With the type map that makes the guess for \<^verbatim>\<open>posts\<close> a wrapper: chains with every
  \<^verbatim>\<open>ofType\<close> in place still end, and so does a bare wrapper under a harmless map.\<close>

lemma convert_type_terminates_examples:
  "convert_type (\<lambda>v. []) (size id_ref + 2 + 0) id_ref (JStr ''posts'') (Some wrapper_map)
       \<noteq> Inl RecursionError
   \<and> convert_type (\<lambda>v. []) (size list_of_unnamed + 2 + 0) list_of_unnamed (JStr ''posts'')
       (Some wrapper_map) \<noteq> Inl RecursionError
   \<and> convert_type (\<lambda>v. []) (size bare_non_null + 2 + 0) bare_non_null (JStr ''posts'')
       (Some user_map) \<noteq> Inl RecursionError"
proof -
  have g: "\<not> guess_is_wrapper (JStr ''posts'') (Some user_map)"
    by (simp add: guess_is_wrapper_def missing_inner_def tm_truthy_def tm_get_def user_map_def
      str_defs)
  from convert_type_terminates [of id_ref "JStr ''posts''" "Some wrapper_map" "\<lambda>v. []" 0]
    convert_type_terminates [of list_of_unnamed "JStr ''posts''" "Some wrapper_map" "\<lambda>v. []" 0]
    convert_type_terminates [of bare_non_null "JStr ''posts''" "Some user_map" "\<lambda>v. []" 0]
    g not_lacks_id_ref not_lacks_list_of_unnamed
  show ?thesis by (simp del: convert_type.simps)
qed

text \<open>
  C9. The claim: \<^verbatim>\<open>convert_type\<close> terminates on every finite, acyclic TypeRef chain of
  arbitrary nesting depth, with no artificial depth limit and with work bounded by the
  size of the TypeRef. The code keeps to that wherever the lemmas above reach, but not
  on the following input. Lines 42--44 and 53--55 make up the inner type with
  \<^verbatim>\<open>"ofType": None\<close> and take its kind from the type map without looking at it: for a
  \<^verbatim>\<open>LIST\<close> without \<^verbatim>\<open>ofType\<close>, the field name \<^verbatim>\<open>tags\<close> and a type map whose \<^verbatim>\<open>Tag\<close> has
  kind \<^verbatim>\<open>NON_NULL\<close>, the made-up type is a wrapper without \<^verbatim>\<open>ofType\<close> again, is made up
  again, and the recursion ends only at the interpreter's recursion limit, whatever
  that limit is. A document with such a type and such a field brings
  \<^verbatim>\<open>generate_graphql_schema\<close> there.
\<close>

theorem missing_ofType_recursion_never_ends:
  "convert_type str_of depth
     (JObj [(''kind'', JStr ''LIST''), (''name'', JNull), (''ofType'', JNull)])
     (JStr ''tags'')
     (Some [(JStr ''Tag'', JObj [(''name'', JStr ''Tag''), (''kind'', JStr ''NON_NULL'')])])
   = Inl RecursionError
   \<and> generate_graphql_schema str_of depth tags_doc = Inl RecursionError"
proof
  have "guess_is_wrapper (JStr ''tags'')
     (Some [(JStr ''Tag'', JObj [(''name'', JStr ''Tag''), (''kind'', JStr ''NON_NULL'')])])"
    by (simp add: guess_is_wrapper_def missing_inner_def tm_truthy_def tm_get_def str_defs)
  then show "convert_type str_of depth
     (JObj [(''kind'', JStr ''LIST''), (''name'', JNull), (''ofType'', JNull)])
     (JStr ''tags'')
     (Some [(JStr ''Tag'', JObj [(''name'', JStr ''Tag''), (''kind'', JStr ''NON_NULL'')])])
   = Inl RecursionError"
    by (intro missing_ofType_loops) simp_all
next
  define type_map :: type_map where "type_map =
    [(JStr ''Tag'', JObj [(''name'', JStr ''Tag''), (''kind'', JStr ''NON_NULL'')]),
     (JStr ''Query'', JObj [(''name'', JStr ''Query''), (''fields'', JArr [
        JObj [(''name'', JStr ''tags''), (''type'',
           JObj [(''kind'', JStr ''LIST''), (''name'', JNull), (''ofType'', JNull)])]])])]"
  have "guess_is_wrapper (JStr ''tags'') (Some type_map)"
    by (simp add: type_map_def guess_is_wrapper_def missing_inner_def tm_truthy_def tm_get_def
        str_defs)
  then have loop: "convert_type str_of depth
     (JObj [(''kind'', JStr ''LIST''), (''name'', JNull), (''ofType'', JNull)])
     (JStr ''tags'') (Some type_map) = Inl RecursionError"
    by (intro missing_ofType_loops) simp_all
  then show "generate_graphql_schema str_of depth tags_doc = Inl RecursionError"
    by (simp add: tags_doc_def generate_graphql_schema_def schema_part_def convert_field_def
        format_value_def type_map_def del: convert_type.simps)
qed

subsection \<open>The outcome does not depend on the recursion budget\<close>

lemma agree_refl: "agree a a"
  by (simp add: agree_def)

lemma agree_bindE:
  "agree m m' \<Longrightarrow> (\<And>x. agree (f x) (f' x)) \<Longrightarrow> agree (bindE m f) (bindE m' f')"
  by (cases m) (auto simp add: agree_def)

lemma agree_if:
  "agree a a' \<Longrightarrow> agree b b' \<Longrightarrow> agree (if c then a else b) (if c then a' else b')"
  by simp

lemma convert_type_Suc:
  "agree (convert_type str_of n t fb tm) (convert_type str_of (Suc n) t fb tm)"
proof (induction n arbitrary: t)
  case 0
  show ?case by (simp add: agree_def)
next
  case (Suc n)
  define body where "body = (\<lambda>rec :: json \<Rightarrow> error + json.
     if t = JNull then Inr (JStr ''UNKNOWN'')
      else
        bindE (dict_get t ''kind'' JNull) (\<lambda>kind.
        if kind = JStr ''NON_NULL'' then
          bindE (dict_get t ''ofType'' JNull) (\<lambda>inner.
          bindE (if inner = JNull then missing_inner fb tm
                 else Inr inner) (\<lambda>inner.
          bindE (rec inner) (\<lambda>r.
          Inr (JStr (format_value str_of r @ ''!'')))))
        else if kind = JStr ''LIST'' then
          bindE (dict_get t ''ofType'' JNull) (\<lambda>inner.
          bindE (if inner = JNull then missing_inner fb tm
                 else Inr inner) (\<lambda>inner.
          bindE (rec inner) (\<lambda>r.
          Inr (JStr (''['' @ format_value str_of r @ '']'')))))
        else
          bindE (dict_get t ''name'' JNull) (\<lambda>name.
          Inr (if truthy name then name else JStr ''UNKNOWN''))))"
  have L: "convert_type str_of (Suc n) t fb tm = body (\<lambda>x. convert_type str_of n x fb tm)"
    unfolding body_def by (rule convert_type.simps(2))
  have R: "convert_type str_of (Suc (Suc n)) t fb tm
           = body (\<lambda>x. convert_type str_of (Suc n) x fb tm)"
    unfolding body_def by (rule convert_type.simps(2))
  have "agree (body (\<lambda>x. convert_type str_of n x fb tm))
              (body (\<lambda>x. convert_type str_of (Suc n) x fb tm))"
    unfolding body_def by (intro agree_if agree_bindE agree_refl Suc.IH)
  then show ?case by (simp only: L R)
qed

lemma stable_const: "stable (\<lambda>n. c)"
  by (simp add: stable_def)

lemma stable_bindE:
  assumes "stable f" and "\<And>x. stable (\<lambda>n. g n x)"
  shows "stable (\<lambda>n. bindE (f n) (g n))"
  unfolding stable_def
proof (intro allI impI)
  fix n m :: nat
  assume nm: "n \<le> m" and ok: "bindE (f n) (g n) \<noteq> Inl RecursionError"
  show "bindE (f m) (g m) = bindE (f n) (g n)"
  proof (cases "f n")
    case (Inl e)
    with ok have "f n \<noteq> Inl RecursionError" by auto
    with assms(1) nm have "f m = f n" by (simp add: stable_def)
    with Inl show ?thesis by simp
  next
    case (Inr x)
    with assms(1) nm have fm: "f m = Inr x" by (simp add: stable_def)
    from Inr ok have "g n x \<noteq> Inl RecursionError" by simp
    with assms(2) [of x] nm have "g m x = g n x" by (simp add: stable_def)
    with Inr fm show ?thesis by simp
  qed
qed

lemma stable_if:
  "stable f \<Longrightarrow> stable g \<Longrightarrow> stable (\<lambda>n. if b then f n else g n)"
  by (simp add: stable_def)

lemma stable_mapE:
  assumes "\<And>x. stable (\<lambda>n. f n x)"
  shows "stable (\<lambda>n. mapE (f n) xs)"
proof (induction xs)
  case Nil
  show ?case by (simp add: stable_const)
next
  case (Cons x xs)
  show ?case
    unfolding mapE.simps
    by (intro stable_bindE stable_const assms Cons)
qed

lemma stable_convert_type: "stable (\<lambda>n. convert_type str_of n t fb tm)"
  unfolding stable_def
proof (intro allI impI)
  fix n m :: nat
  assume "n \<le> m" and ok: "convert_type str_of n t fb tm \<noteq> Inl RecursionError"
  then show "convert_type str_of m t fb tm = convert_type str_of n t fb tm"
  proof (induction m)
    case 0
    then show ?case by simp
  next
    case (Suc m)
    show ?case
    proof (cases "n = Suc m")
      case True
      then show ?thesis by simp
    next
      case False
      with Suc.prems have "n \<le> m" by simp
      from Suc.IH [OF this ok] ok convert_type_Suc [of str_of m t fb tm]
      show ?thesis by (simp add: agree_def del: convert_type.simps)
    qed
  qed
qed

lemma stable_convert_field: "stable (\<lambda>n. convert_field str_of n type_map field)"
  unfolding convert_field_def
  by (intro stable_bindE stable_const stable_convert_type)

lemma stable_convert_input_field:
  "stable (\<lambda>n. convert_input_field str_of n type_map field)"
  unfolding convert_input_field_def
  by (intro stable_bindE stable_const stable_convert_type)

lemma stable_schema_part: "stable (\<lambda>n. schema_part str_of n type_map t)"
  unfolding schema_part_def
  by (intro stable_bindE stable_if stable_const stable_mapE
        stable_convert_field stable_convert_input_field)

lemma stable_schema_parts: "stable (\<lambda>n. schema_parts str_of n type_map ts)"
proof (induction ts)
  case Nil
  show ?case by (simp add: stable_const)
next
  case (Cons t ts)
  show ?case
    unfolding schema_parts.simps
    by (intro stable_bindE stable_const stable_schema_part Cons)
qed

lemma stable_generate: "stable (\<lambda>n. generate_graphql_schema str_of n doc)"
  unfolding generate_graphql_schema_def
  by (intro stable_bindE stable_const stable_schema_parts)

lemma stable_agree:
  assumes "stable f" and "f n \<noteq> Inl RecursionError" and "f m \<noteq> Inl RecursionError"
  shows "f n = f m"
proof (cases "n \<le> m")
  case True
  with assms show ?thesis by (simp add: stable_def)
next
  case False
  then have "m \<le> n" by simp
  with assms show ?thesis by (simp add: stable_def)
qed

lemma small_doc_sdl:
  "generate_graphql_schema (\<lambda>v. []) (Suc (Suc 0)) small_doc =
     Inr ''type Post {\<newline>  id: ID!\<newline>}\<newline>\<newline>enum Color {\<newline>  RED\<newline>}\<newline>\<newline>scalar Date\<newline>''"
  by (simp add: small_doc_def generate_graphql_schema_def schema_part_def convert_field_def
      format_value_def)

text \<open>
  Two runs that do not hit the recursion limit have the same outcome, the same SDL text
  or the same exception, for \<^verbatim>\<open>generate_graphql_schema\<close> and for \<^verbatim>\<open>convert_type\<close>: the
  recursion budget decides only whether a run ends in \<^verbatim>\<open>RecursionError\<close>. (That equal
  inputs give equal outputs, and that no input is changed, is how the functions of this
  theory are built and is no theorem of it.)
\<close>

lemma outcome_independent_of_budget:
  "(generate_graphql_schema str_of n doc \<noteq> Inl RecursionError \<longrightarrow>
    generate_graphql_schema str_of m doc \<noteq> Inl RecursionError \<longrightarrow>
    generate_graphql_schema str_of n doc = generate_graphql_schema str_of m doc)
   \<and> (convert_type str_of n t fb tm \<noteq> Inl RecursionError \<longrightarrow>
      convert_type str_of m t fb tm \<noteq> Inl RecursionError \<longrightarrow>
      convert_type str_of n t fb tm = convert_type str_of m t fb tm)"
  using stable_agree [OF stable_generate] stable_agree [OF stable_convert_type]
  by blast

subsection \<open>The order of the declarations\<close>

lemma schema_part_declares:
  assumes "schema_part str_of depth type_map t = Inr (Some block)"
  shows "declares t block"
proof -
  from assms obtain name where name: "dict_get t ''name'' JNull = Inr name"
    by (auto simp add: schema_part_def bindE_eq_Inr)
  with assms have "truthy name"
    by (auto simp add: schema_part_def split: if_splits)
  with assms name obtain internal where "startswith name ''__'' = Inr internal"
    by (auto simp add: schema_part_def bindE_eq_Inr)
  with assms name \<open>truthy name\<close> have "startswith name ''__'' = Inr False"
    by (auto simp add: schema_part_def split: if_splits)
  then obtain s where "name = JStr s" and "\<not> prefix ''__'' s"
    using startswith_Inr by blast
  with \<open>truthy name\<close> have s: "name = JStr s" "s \<noteq> []" "\<not> prefix ''__'' s"
    by simp_all
  from assms name s have
    "(\<exists>rest. block = ''type '' @ s @ rest) \<or> (\<exists>rest. block = ''input '' @ s @ rest)
     \<or> (\<exists>rest. block = ''enum '' @ s @ rest) \<or> block = ''scalar '' @ s"
    by (simp add: schema_part_def format_value_def bindE_eq_Inr split: if_splits) blast+
  then have "prefix (''type '' @ s) block \<or> prefix (''input '' @ s) block
             \<or> prefix (''enum '' @ s) block \<or> prefix (''scalar '' @ s) block"
    by (elim disjE exE) (simp_all add: prefix_def)
  with name s show ?thesis by (simp add: declares_def)
qed

lemma schema_parts_blocks:
  "schema_parts str_of depth type_map ts = Inr blocks \<Longrightarrow>
   list_all2 (\<lambda>t block. schema_part str_of depth type_map t = Inr (Some block))
     (filter (\<lambda>t. schema_part str_of depth type_map t \<noteq> Inr None) ts) blocks"
proof (induction ts arbitrary: blocks)
  case Nil
  then show ?case by simp
next
  case (Cons t ts)
  from Cons.prems obtain part parts where
    part: "schema_part str_of depth type_map t = Inr part"
    and parts: "schema_parts str_of depth type_map ts = Inr parts"
    and blocks: "blocks = (case part of None \<Rightarrow> parts | Some block \<Rightarrow> block # parts)"
    by (auto simp add: bindE_eq_Inr)
  from Cons.IH [OF parts] part blocks show ?case
    by (cases part) simp_all
qed

text \<open>
  C6. Whenever \<^verbatim>\<open>generate_graphql_schema\<close> returns, the SDL text is the blocks of the
  types that are not skipped, joined by blank lines in the order in which these types
  stand in the input array: the kept types are a subsequence of the array, block and
  kept type correspond one to one in that order, and each block declares its type, whose
  name is not an internal one. (A type that stands twice in the array is declared at
  both places.)
\<close>

theorem declaration_order:
  assumes "generate_graphql_schema str_of depth doc = Inr sdl"
  shows "\<exists>ts type_map kept blocks.
           input_types doc = Inr ts
         \<and> type_map_of ts [] = Inr type_map
         \<and> kept = filter (\<lambda>t. schema_part str_of depth type_map t \<noteq> Inr None) ts
         \<and> subseq kept ts
         \<and> list_all2 (\<lambda>t block. schema_part str_of depth type_map t = Inr (Some block)
                                  \<and> declares t block) kept blocks
         \<and> sdl = str_join ''\<newline>\<newline>'' blocks @ ''\<newline>''"
proof -
  from assms obtain ts type_map blocks where
    ts: "input_types doc = Inr ts"
    and tm: "type_map_of ts [] = Inr type_map"
    and blocks: "schema_parts str_of depth type_map ts = Inr blocks"
    and sdl: "sdl = str_join ''\<newline>\<newline>'' blocks @ ''\<newline>''"
    by (auto simp add: generate_graphql_schema_def input_types_def bindE_eq_Inr)
  let ?kept = "filter (\<lambda>t. schema_part str_of depth type_map t \<noteq> Inr None) ts"
  have "list_all2 (\<lambda>t block. schema_part str_of depth type_map t = Inr (Some block)
                              \<and> declares t block) ?kept blocks"
    by (rule list_all2_mono [OF schema_parts_blocks [OF blocks]])
       (simp add: schema_part_declares)
  moreover have "subseq ?kept ts" by simp
  ultimately show ?thesis using ts tm sdl by blast
qed

theorem declaration_order_witness:
  "generate_graphql_schema (\<lambda>v. []) (Suc (Suc 0)) small_doc =
     Inr ''type Post {\<newline>  id: ID!\<newline>}\<newline>\<newline>enum Color {\<newline>  RED\<newline>}\<newline>\<newline>scalar Date\<newline>''
   \<and> (\<exists>ts type_map kept blocks.
           input_types small_doc = Inr ts
         \<and> type_map_of ts [] = Inr type_map
         \<and> kept = filter (\<lambda>t. schema_part (\<lambda>v. []) (Suc (Suc 0)) type_map t \<noteq> Inr None) ts
         \<and> subseq kept ts
         \<and> list_all2 (\<lambda>t block. schema_part (\<lambda>v. []) (Suc (Suc 0)) type_map t = Inr (Some block)
                                  \<and> declares t block) kept blocks
         \<and> ''type Post {\<newline>  id: ID!\<newline>}\<newline>\<newline>enum Color {\<newline>  RED\<newline>}\<newline>\<newline>scalar Date\<newline>''
             = str_join ''\<newline>\<newline>'' blocks @ ''\<newline>'')"
  using declaration_order [OF small_doc_sdl] small_doc_sdl by (simp only: simp_thms)

subsection \<open>A document without the types array\<close>

text \<open>
  C8. A document that lacks the path \<^verbatim>\<open>data.__schema.types\<close>, such as \<^verbatim>\<open>{}\<close>, makes
  \<^verbatim>\<open>generate_graphql_schema\<close> raise \<^verbatim>\<open>KeyError\<close> (a dict without the key) or \<^verbatim>\<open>TypeError\<close>
  (not a dict) at line 110, before any SDL is built, and \<^verbatim>\<open>main\<close> exits with the error
  without writing SDL.
\<close>

theorem missing_path_is_error:
  assumes "\<not> has_types_path doc"
  shows "(generate_graphql_schema str_of depth doc = Inl KeyError
          \<or> generate_graphql_schema str_of depth doc = Inl TypeError)
         \<and> (\<forall>sdl. main str_of depth doc \<noteq> Written sdl)"
proof -
  have "generate_graphql_schema str_of depth doc = Inl KeyError
        \<or> generate_graphql_schema str_of depth doc = Inl TypeError"
  proof (cases "member doc ''data''")
    case None
    from py_getitem_error [OF this] show ?thesis
      by (auto simp add: generate_graphql_schema_def)
  next
    case (Some data)
    note d = py_getitem_member [OF this]
    show ?thesis
    proof (cases "member data ''__schema''")
      case None
      from py_getitem_error [OF this] d show ?thesis
        by (auto simp add: generate_graphql_schema_def)
    next
      case (Some schema)
      note s = py_getitem_member [OF this]
      from assms \<open>member doc ''data'' = Some data\<close> Some
      have "member schema ''types'' = None"
        by (simp add: has_types_path_def)
      from py_getitem_error [OF this] d s show ?thesis
        by (auto simp add: generate_graphql_schema_def)
    qed
  qed
  then show ?thesis by (auto simp add: main_def)
qed

theorem missing_path_is_error_witness:
  "\<not> has_types_path (JObj [])
   \<and> generate_graphql_schema (\<lambda>v. []) 0 (JObj []) = Inl KeyError
   \<and> main (\<lambda>v. []) 0 (JObj []) = Exit_Error KeyError"
  using missing_path_is_error [of "JObj []" "\<lambda>v. []" 0]
  by (simp add: has_types_path_def generate_graphql_schema_def main_def)

end
